theory Spec2Isabelle
  imports Complex_Main "HOL-Library.AList" "HOL-Library.Sublist"
begin

section \<open>Errors\<close>

text \<open>
  Every \<^verbatim>\<open>raise\<close> of the sources, and every exception of the Python runtime or of a
  library that the modelled code can meet, is a value of this type. \<open>Exception\<close> carries the
  message of a \<^verbatim>\<open>raise Exception("...")\<close> of \<^verbatim>\<open>setup.py\<close>.
\<close>

datatype error =
    Exception string
  | KeyError
  | IndexError
  | ValueError
  | AttributeError
  | RuntimeError

section \<open>Configuration\<close>

text \<open>
  The configuration is the dictionary read from \<^verbatim>\<open>config.json\<close>. A block descriptor is
  the dictionary that \<^verbatim>\<open>setup_block\<close> reads with the keys \<^verbatim>\<open>type\<close>,
  \<^verbatim>\<open>input_size\<close>, \<^verbatim>\<open>output_size\<close>, \<^verbatim>\<open>width\<close>, \<^verbatim>\<open>dropout_rate\<close>,
  \<^verbatim>\<open>match_score\<close> and \<^verbatim>\<open>share_weights\<close>; a layer configuration is a list of block
  descriptors. Integers are Python integers (unbounded); the dropout rate is a JSON number
  that the code only passes on.
\<close>

record block_config =
  block_type :: string
  input_size :: int
  output_size :: int
  width :: int
  dropout_rate :: real
  match_score :: string
  share_weights :: bool

record embeddings_config =
  emb_size :: int
  emb_path :: string
  emb_format :: string
  emb_is_binary :: bool

record model_config =
  max_length :: int
  layers :: "block_config list list"
  use_all_layer_outputs :: bool

record config =
  embeddings_cfg :: embeddings_config
  model_cfg :: model_config

section \<open>Objects of the model package\<close>

text \<open>
  Modelled from the spec: the classes \<^verbatim>\<open>Convolution\<close>, \<^verbatim>\<open>WidthAP\<close>,
  \<^verbatim>\<open>ABCNN1Attention\<close>, \<^verbatim>\<open>ABCNN2Attention\<close>, the four block classes, \<^verbatim>\<open>CNNLayer\<close>
  and \<^verbatim>\<open>Model\<close> live in the package \<^verbatim>\<open>model\<close>, which is not among the sources. An object
  of one of them is represented by the constructor call that made it: the class and the
  arguments, in the order in which \<^verbatim>\<open>setup.py\<close> passes them.
\<close>

datatype convolution = Convolution int int int int

datatype pooling = WidthAP int

datatype abcnn1_attention = ABCNN1Attention int int bool string

datatype abcnn2_attention = ABCNN2Attention int int string

datatype block =
    BCNNBlock convolution pooling real
  | ABCNN1Block abcnn1_attention convolution pooling real
  | ABCNN2Block convolution abcnn2_attention real
  | ABCNN3Block abcnn1_attention convolution abcnn2_attention real

datatype layer = CNNLayer "block list"

datatype 'e model = Model 'e "layer list" bool int



fun model_final_size :: "'e model \<Rightarrow> int" where
  "model_final_size (Model e ls u n) = n"

section \<open>\<^verbatim>\<open>setup_block\<close> and \<^verbatim>\<open>setup_layer\<close>\<close>

definition unsupported_block_type :: string where
  "unsupported_block_type =
     ''Unsupported type. Must be one of 'bcnn', 'abcnn1', 'abcnn2', 'abcnn3'.''"

definition setup_block :: "int \<Rightarrow> block_config \<Rightarrow> error + (block \<times> int)" where
  "setup_block max_len bc =
     (let isz = input_size bc;
          osz = output_size bc;
          w = width bc;
          rate = dropout_rate bc;
          score = match_score bc;
          share = share_weights bc
      in if block_type bc = ''bcnn'' then
           (let conv = Convolution isz osz w 1;
                pool = WidthAP w
            in Inr (BCNNBlock conv pool rate, osz))
         else if block_type bc = ''abcnn1'' then
           (let attn = ABCNN1Attention isz max_len share score;
                conv = Convolution isz osz w 2;
                pool = WidthAP w
            in Inr (ABCNN1Block attn conv pool rate, osz))
         else if block_type bc = ''abcnn2'' then
           (let conv = Convolution isz osz w 1;
                attn = ABCNN2Attention max_len w score
            in Inr (ABCNN2Block conv attn rate, osz))
         else if block_type bc = ''abcnn3'' then
           (let attn1 = ABCNN1Attention isz max_len share score;
                conv = Convolution isz osz w 2;
                attn2 = ABCNN2Attention max_len w score
            in Inr (ABCNN3Block attn1 conv attn2 rate, osz))
         else Inl (Exception unsupported_block_type))"

text \<open>
  The loop of \<^verbatim>\<open>setup_layer\<close> over the block descriptors, with the two lists it appends
  to; the first failing \<^verbatim>\<open>setup_block\<close> ends it.
\<close>

fun setup_layer_loop ::
  "int \<Rightarrow> block_config list \<Rightarrow> block list \<Rightarrow> int list \<Rightarrow> error + (block list \<times> int list)"
where
  "setup_layer_loop max_len [] blocks output_sizes = Inr (blocks, output_sizes)"
| "setup_layer_loop max_len (bc # rest) blocks output_sizes =
     (case setup_block max_len bc of
        Inl e \<Rightarrow> Inl e
      | Inr (blk, osz) \<Rightarrow> setup_layer_loop max_len rest (blocks @ [blk]) (output_sizes @ [osz]))"

definition setup_layer :: "int \<Rightarrow> block_config list \<Rightarrow> error + (layer \<times> int)" where
  "setup_layer max_len layer_config =
     (case setup_layer_loop max_len layer_config [] [] of
        Inl e \<Rightarrow> Inl e
      | Inr (blocks, output_sizes) \<Rightarrow> Inr (CNNLayer blocks, sum_list output_sizes))"

section \<open>Modules and \<^verbatim>\<open>weights_init\<close>\<close>

text \<open>
  \<^verbatim>\<open>weights_init\<close> sees a module through the name of its class and through the attributes
  \<^verbatim>\<open>weight\<close>, \<^verbatim>\<open>bias\<close>, \<^verbatim>\<open>W1\<close> and \<^verbatim>\<open>W2\<close>; \<^verbatim>\<open>model.apply\<close> sees it through its children.
  A module is therefore a tree whose nodes carry a class name and the tensor attributes. An
  attribute that is missing or \<^verbatim>\<open>None\<close> has no entry. The initialisers of \<^verbatim>\<open>torch.nn.init\<close>
  draw random floating-point numbers in place; a tensor is represented by the sequence of
  initialisers applied to it since it was made, the latest last.
\<close>

datatype init_op = Xavier_normal | Constant int

type_synonym tensor = "init_op list"

datatype nn_module = Module string "(string \<times> tensor) list" "nn_module list"

text \<open>Python's \<^verbatim>\<open>str.find\<close>: the lowest index at which \<open>sub\<close> occurs in \<open>s\<close>, or \<open>-1\<close>.\<close>

fun find_from :: "string \<Rightarrow> string \<Rightarrow> int \<Rightarrow> int" where
  "find_from [] sub i = (if sub = [] then i else -1)"
| "find_from (c # cs) sub i = (if prefix sub (c # cs) then i else find_from cs sub (i + 1))"

definition str_find :: "string \<Rightarrow> string \<Rightarrow> int" where
  "str_find s sub = find_from s sub 0"

text \<open>
  An initialiser called on the attribute \<open>name\<close> of a module: \<^verbatim>\<open>AttributeError\<close> when the
  module has no such tensor.
\<close>

definition init_attr ::
  "init_op \<Rightarrow> string \<Rightarrow> (string \<times> tensor) list \<Rightarrow> error + (string \<times> tensor) list" where
  "init_attr op name attrs =
     (case map_of attrs name of
        None \<Rightarrow> Inl AttributeError
      | Some t \<Rightarrow> Inr (AList.update name (t @ [op]) attrs))"

fun weights_init :: "nn_module \<Rightarrow> error + nn_module" where
  "weights_init (Module classname attrs ch) =
     (if str_find classname ''Conv2d'' \<noteq> -1 then
        (case init_attr Xavier_normal ''weight'' attrs of
           Inl e \<Rightarrow> Inl e
         | Inr attrs1 \<Rightarrow>
             (case init_attr (Constant 0) ''bias'' attrs1 of
                Inl e \<Rightarrow> Inl e
              | Inr attrs2 \<Rightarrow> Inr (Module classname attrs2 ch)))
      else if str_find classname ''Linear'' \<noteq> -1 then
        (case init_attr Xavier_normal ''weight'' attrs of
           Inl e \<Rightarrow> Inl e
         | Inr attrs1 \<Rightarrow>
             (case init_attr (Constant 0) ''bias'' attrs1 of
                Inl e \<Rightarrow> Inl e
              | Inr attrs2 \<Rightarrow> Inr (Module classname attrs2 ch)))
      else if str_find classname ''ABCNN1Attention'' \<noteq> -1 then
        (case init_attr Xavier_normal ''W1'' attrs of
           Inl e \<Rightarrow> Inl e
         | Inr attrs1 \<Rightarrow>
             (case init_attr Xavier_normal ''W2'' attrs1 of
                Inl e \<Rightarrow> Inl e
              | Inr attrs2 \<Rightarrow> Inr (Module classname attrs2 ch)))
      else Inr (Module classname attrs ch))"

text \<open>
  \<^verbatim>\<open>torch.nn.Module.apply(fn)\<close>: \<^verbatim>\<open>fn\<close> is applied to every child, recursively and in
  order, and then to the module itself. The module tree has no module that is a child of
  two parents.
\<close>

fun apply_fn :: "(nn_module \<Rightarrow> error + nn_module) \<Rightarrow> nn_module \<Rightarrow> error + nn_module"
  and apply_children ::
    "(nn_module \<Rightarrow> error + nn_module) \<Rightarrow> nn_module list \<Rightarrow> error + nn_module list"
where
  "apply_fn fn (Module c attrs ch) =
     (case apply_children fn ch of
        Inl e \<Rightarrow> Inl e
      | Inr ch' \<Rightarrow> fn (Module c attrs ch'))"
| "apply_children fn [] = Inr []"
| "apply_children fn (m # ms) =
     (case apply_fn fn m of
        Inl e \<Rightarrow> Inl e
      | Inr m' \<Rightarrow>
          (case apply_children fn ms of
             Inl e \<Rightarrow> Inl e
           | Inr ms' \<Rightarrow> Inr (m' # ms')))"

section \<open>\<^verbatim>\<open>setup_model\<close>\<close>

text \<open>The loop of \<^verbatim>\<open>setup_model\<close> over the layer configurations.\<close>

fun setup_model_loop ::
  "int \<Rightarrow> block_config list list \<Rightarrow> layer list \<Rightarrow> int list \<Rightarrow> error + (layer list \<times> int list)"
where
  "setup_model_loop max_len [] lyrs layer_sizes = Inr (lyrs, layer_sizes)"
| "setup_model_loop max_len (lc # rest) lyrs layer_sizes =
     (case setup_layer max_len lc of
        Inl e \<Rightarrow> Inl e
      | Inr (lyr, layer_size) \<Rightarrow>
          setup_model_loop max_len rest (lyrs @ [lyr]) (layer_sizes @ [layer_size]))"

text \<open>
  \<^verbatim>\<open>setup_model\<close>. The parameter \<open>modules\<close> gives the module tree of a freshly constructed
  \<^verbatim>\<open>Model\<close> (the class is not among the sources). The result is the model object and the
  state of its module tree when \<^verbatim>\<open>setup_model\<close> returns. \<^verbatim>\<open>.float()\<close> and \<^verbatim>\<open>.cuda()\<close>
  change the number format and the device of the tensors and nothing else, and have no
  counterpart here. \<^verbatim>\<open>layer_sizes\<close> starts as \<^verbatim>\<open>[embeddings_size]\<close>, so it is never empty
  and \<^verbatim>\<open>layer_sizes[-1]\<close> is its last element.
\<close>

definition setup_model ::
  "('e model \<Rightarrow> nn_module) \<Rightarrow> 'e \<Rightarrow> config \<Rightarrow> error + ('e model \<times> nn_module)" where
  "setup_model modules embeddings cfg =
     (let embeddings_size = emb_size (embeddings_cfg cfg);
          max_len = max_length (model_cfg cfg);
          layer_configs = layers (model_cfg cfg);
          use_all = use_all_layer_outputs (model_cfg cfg)
      in case setup_model_loop max_len layer_configs [] [embeddings_size] of
           Inl e \<Rightarrow> Inl e
         | Inr (lyrs, layer_sizes) \<Rightarrow>
             (let final_size =
                    (if use_all then 2 * sum_list layer_sizes else 2 * last layer_sizes);
                  mdl = Model embeddings lyrs use_all final_size
              in case apply_fn weights_init (modules mdl) of
                   Inl e \<Rightarrow> Inl e
                 | Inr st \<Rightarrow> Inr (mdl, st)))"

section \<open>\<^verbatim>\<open>setup_word_vectors\<close>\<close>



section \<open>\<^verbatim>\<open>setup_datasets\<close>\<close>

text \<open>
  A row of a data frame has the columns \<^verbatim>\<open>question1\<close>, \<^verbatim>\<open>question2\<close> and
  \<^verbatim>\<open>is_duplicate\<close>; the type \<open>'q\<close> is whatever a question cell holds. The dictionary
  \<^verbatim>\<open>datasets\<close> maps a name to a data frame on entry and to a \<^verbatim>\<open>TensorDataset\<close> (the
  tensor of indexed examples and the tensor of labels) on exit. A Python dictionary keeps
  its keys in insertion order, so it is a list of key-value pairs, read with \<open>map_of\<close>
  and written with \<open>AList.update\<close>, which overwrites an existing key in place and appends
  a new one.
\<close>

record 'q example =
  question1 :: 'q
  question2 :: 'q
  is_duplicate :: int

datatype 'q dataset =
    DataFrame "'q example list"
  | TensorDataset "int list list list" "int list"

type_synonym 'q datasets_dict = "(string \<times> 'q dataset) list"

text \<open>
  \<^verbatim>\<open>setup_datasets\<close> writes into the dictionary object it was given. Dictionary objects
  live in a store; a variable holds the address of one.
\<close>

type_synonym addr = nat

type_synonym 'q store = "addr \<Rightarrow> 'q datasets_dict"

type_synonym word2index = "(string \<times> int) list"

text \<open>
  \<^verbatim>\<open>remove_stop_words\<close>; \<open>stops\<close> is NLTK's list \<^verbatim>\<open>stopwords.words("english")\<close>.
\<close>

definition remove_stop_words :: "string list \<Rightarrow> string list \<Rightarrow> string list" where
  "remove_stop_words stops words = filter (\<lambda>w. w \<notin> set stops) words"

text \<open>Lines 221 to 229: the loop that converts the words of a question to indices.\<close>

fun index_words ::
  "word2index \<Rightarrow> string list \<Rightarrow> int list \<Rightarrow> error + (word2index \<times> int list)" where
  "index_words w2i [] indexes = Inr (w2i, indexes)"
| "index_words w2i (word # rest) indexes =
     (let w2i' = (if map_of w2i word = None
                  then AList.update word (int (length w2i)) w2i
                  else w2i)
      in case map_of w2i' word of
           None \<Rightarrow> Inl KeyError
         | Some i \<Rightarrow> index_words w2i' rest (indexes @ [i]))"

text \<open>The slice \<^verbatim>\<open>xs[:n]\<close>; a negative \<open>n\<close> counts from the end.\<close>

definition slice_to :: "'a list \<Rightarrow> int \<Rightarrow> 'a list" where
  "slice_to xs n = (if 0 \<le> n then take (nat n) xs else take (length xs - nat (- n)) xs)"

text \<open>
  Lines 216 to 240, for one question: the words are \<open>tokenize question\<close>, where
  \<open>tokenize\<close> stands for \<^verbatim>\<open>text_to_word_list\<close>.
\<close>

definition index_question ::
  "('q \<Rightarrow> string list) \<Rightarrow> string list \<Rightarrow> int \<Rightarrow> word2index \<Rightarrow> 'q \<Rightarrow>
   error + (word2index \<times> int list \<times> string list)" where
  "index_question tokenize stops max_len w2i question =
     (let words = tokenize question;
          words = remove_stop_words stops words
      in case index_words w2i words [] of
           Inl e \<Rightarrow> Inl e
         | Inr (w2i', indexes) \<Rightarrow>
             (let len = (if int (length indexes) < max_len then int (length indexes) else max_len);
                  indexes = slice_to indexes len;
                  words = slice_to words len
              in if len < max_len then
                   (let num_padding = max_len - len
                    in Inr (w2i', indexes @ replicate (nat num_padding) 0,
                            words @ replicate (nat num_padding) ''<PAD>''))
                 else Inr (w2i', indexes, words)))"

text \<open>The loop over \<^verbatim>\<open>question_cols\<close> for one example.\<close>

definition question_cols :: "('q example \<Rightarrow> 'q) list" where
  "question_cols = [question1, question2]"

fun columns_loop ::
  "('q \<Rightarrow> string list) \<Rightarrow> string list \<Rightarrow> int \<Rightarrow> 'q example \<Rightarrow> ('q example \<Rightarrow> 'q) list \<Rightarrow>
   word2index \<Rightarrow> int list list \<Rightarrow> string list list \<Rightarrow>
   error + (word2index \<times> int list list \<times> string list list)" where
  "columns_loop tokenize stops max_len ex [] w2i index_map parsed_text =
     Inr (w2i, index_map, parsed_text)"
| "columns_loop tokenize stops max_len ex (column # rest) w2i index_map parsed_text =
     (case index_question tokenize stops max_len w2i (column ex) of
        Inl e \<Rightarrow> Inl e
      | Inr (w2i', indexes, words) \<Rightarrow>
          columns_loop tokenize stops max_len ex rest w2i'
            (index_map @ [indexes]) (parsed_text @ [words]))"

text \<open>The loop over the rows of one data frame.\<close>

fun rows_loop ::
  "('q \<Rightarrow> string list) \<Rightarrow> string list \<Rightarrow> int \<Rightarrow> 'q example list \<Rightarrow> word2index \<Rightarrow>
   int list \<Rightarrow> int list list list \<Rightarrow> string list list list \<Rightarrow>
   error + (word2index \<times> int list \<times> int list list list \<times> string list list list)" where
  "rows_loop tokenize stops max_len [] w2i labels indexed_examples parsed_texts =
     Inr (w2i, labels, indexed_examples, parsed_texts)"
| "rows_loop tokenize stops max_len (ex # rest) w2i labels indexed_examples parsed_texts =
     (case columns_loop tokenize stops max_len ex question_cols w2i [] [] of
        Inl e \<Rightarrow> Inl e
      | Inr (w2i', index_map, parsed_text) \<Rightarrow>
          rows_loop tokenize stops max_len rest w2i'
            (labels @ [is_duplicate ex]) (indexed_examples @ [index_map])
            (parsed_texts @ [parsed_text]))"

text \<open>
  \<^verbatim>\<open>torch.LongTensor\<close> of a nested list raises \<^verbatim>\<open>ValueError\<close> unless the innermost
  lists all have one length (every example has two of them).
\<close>

definition long_tensor :: "int list list list \<Rightarrow> error + int list list list" where
  "long_tensor xsss =
     (case concat xsss of
        [] \<Rightarrow> Inr xsss
      | s # ss \<Rightarrow> if list_all (\<lambda>t. length t = length s) ss then Inr xsss else Inl ValueError)"

text \<open>
  The loop over \<^verbatim>\<open>datasets.items()\<close>. The keys of the dictionary do not change during
  the loop, so the items still to visit are those of the dictionary on entry. A value that
  is not a data frame has no \<^verbatim>\<open>iterrows\<close>.
\<close>

fun datasets_loop ::
  "('q \<Rightarrow> string list) \<Rightarrow> string list \<Rightarrow> int \<Rightarrow> addr \<Rightarrow> (string \<times> 'q dataset) list \<Rightarrow>
   'q store \<Rightarrow> (string \<times> string list list list) list \<Rightarrow> word2index \<Rightarrow>
   error + ('q store \<times> (string \<times> string list list list) list \<times> word2index)" where
  "datasets_loop tokenize stops max_len datasets [] st texts w2i = Inr (st, texts, w2i)"
| "datasets_loop tokenize stops max_len datasets ((name, TensorDataset xs ys) # items) st texts w2i =
     Inl AttributeError"
| "datasets_loop tokenize stops max_len datasets ((name, DataFrame rows) # items) st texts w2i =
     (case rows_loop tokenize stops max_len rows w2i [] [] [] of
        Inl e \<Rightarrow> Inl e
      | Inr (w2i', labels, indexed_examples, parsed_texts) \<Rightarrow>
          (case long_tensor indexed_examples of
             Inl e \<Rightarrow> Inl e
           | Inr indexed_examples' \<Rightarrow>
               (let dataset = TensorDataset indexed_examples' labels;
                    st' = st(datasets := AList.update name dataset (st datasets));
                    texts' = AList.update name parsed_texts texts
                in datasets_loop tokenize stops max_len datasets items st' texts' w2i')))"

text \<open>
  \<^verbatim>\<open>setup_datasets\<close>: \<open>datasets\<close> is the address of the dictionary; the result is the
  store on return and the returned triple, whose first component is again an address.
  \<^verbatim>\<open>embeddings_size\<close> is not used by the function.
\<close>

definition setup_datasets ::
  "('q \<Rightarrow> string list) \<Rightarrow> string list \<Rightarrow> 'q store \<Rightarrow> addr \<Rightarrow> int \<Rightarrow> int \<Rightarrow>
   error + ('q store \<times> addr \<times> (string \<times> string list list list) list \<times> word2index)" where
  "setup_datasets tokenize stops st datasets embeddings_size max_len =
     (let texts = [];
          w2i = [(''<PAD>'', 0)]
      in case datasets_loop tokenize stops max_len datasets (st datasets) st texts w2i of
           Inl e \<Rightarrow> Inl e
         | Inr (st', texts', w2i') \<Rightarrow> Inr (st', datasets, texts', w2i'))"

section \<open>\<^verbatim>\<open>setup_embedding_matrix\<close>\<close>

text \<open>
  \<^verbatim>\<open>np.random.uniform(-0.01, 0.01, (rows, cols))\<close>: \<open>rnd i j\<close> is the number drawn for the
  entry in row \<open>i\<close> and column \<open>j\<close>. A negative dimension is a \<^verbatim>\<open>ValueError\<close>. Floating-point
  numbers are only stored and copied here, never computed with.
\<close>

definition uniform_matrix :: "(nat \<Rightarrow> nat \<Rightarrow> real) \<Rightarrow> nat \<Rightarrow> nat \<Rightarrow> real list list" where
  "uniform_matrix rnd rows cols = map (\<lambda>i. map (\<lambda>j. rnd i j) [0..<cols]) [0..<rows]"

text \<open>
  The assignment \<^verbatim>\<open>embeddings[index] = vec\<close> of numpy: a negative index counts from the
  end, an index out of range is an \<^verbatim>\<open>IndexError\<close>, a vector of length one is broadcast
  over the row, and a vector of any other wrong length is a \<^verbatim>\<open>ValueError\<close>.
\<close>

definition set_row :: "real list list \<Rightarrow> nat \<Rightarrow> int \<Rightarrow> real list \<Rightarrow> error + real list list" where
  "set_row embeddings cols index vec =
     (let n = int (length embeddings)
      in if index < - n \<or> n \<le> index then Inl IndexError
         else (let i = nat (if index < 0 then index + n else index)
               in if length vec = cols then Inr (embeddings[i := vec])
                  else if length vec = 1 then Inr (embeddings[i := replicate cols (hd vec)])
                  else Inl ValueError))"

text \<open>
  The loop over \<^verbatim>\<open>word2index.items()\<close>. \<open>word_vectors word\<close> is \<^verbatim>\<open>word_vectors[word]\<close>,
  which may raise; the \<^verbatim>\<open>except\<close> clause swallows \<^verbatim>\<open>RuntimeError\<close> and \<^verbatim>\<open>KeyError\<close>.
\<close>

fun fill_loop ::
  "(string \<Rightarrow> error + real list) \<Rightarrow> nat \<Rightarrow> (string \<times> int) list \<Rightarrow> real list list \<Rightarrow>
   error + real list list" where
  "fill_loop word_vectors cols [] embeddings = Inr embeddings"
| "fill_loop word_vectors cols ((word, index) # items) embeddings =
     (case word_vectors word of
        Inl RuntimeError \<Rightarrow> fill_loop word_vectors cols items embeddings
      | Inl KeyError \<Rightarrow> fill_loop word_vectors cols items embeddings
      | Inl e \<Rightarrow> Inl e
      | Inr vec \<Rightarrow>
          (case set_row embeddings cols index vec of
             Inl RuntimeError \<Rightarrow> fill_loop word_vectors cols items embeddings
           | Inl KeyError \<Rightarrow> fill_loop word_vectors cols items embeddings
           | Inl e \<Rightarrow> Inl e
           | Inr embeddings' \<Rightarrow> fill_loop word_vectors cols items embeddings'))"

definition setup_embedding_matrix ::
  "(nat \<Rightarrow> nat \<Rightarrow> real) \<Rightarrow> (string \<Rightarrow> error + real list) option \<Rightarrow> word2index \<Rightarrow> int \<Rightarrow>
   error + real list list" where
  "setup_embedding_matrix rnd word_vectors w2i embeddings_size =
     (if embeddings_size < 0 then Inl ValueError
      else (let cols = nat embeddings_size;
                embeddings = uniform_matrix rnd (length w2i + 1) cols;
                embeddings = embeddings[0 := replicate cols 0]
            in case word_vectors of
                 None \<Rightarrow> Inr embeddings
               | Some wv \<Rightarrow> fill_loop wv cols w2i embeddings))"

section \<open>\<^verbatim>\<open>make_block\<close>\<close>

text \<open>Python's \<^verbatim>\<open>sub in s\<close> on strings: \<open>sub\<close> occurs somewhere in \<open>s\<close>.\<close>

fun str_in :: "string \<Rightarrow> string \<Rightarrow> bool" where
  "str_in sub [] = (sub = [])"
| "str_in sub (c # cs) = (prefix sub (c # cs) \<or> str_in sub cs)"

text \<open>
  Python's \<^verbatim>\<open>s.replace(old, new)\<close>: every occurrence of \<open>old\<close>, found from the left and
  without overlap, is replaced; \<open>k\<close> counts the characters of the current occurrence still to
  skip. An empty \<open>old\<close> matches before every character and at the end.
\<close>

fun replace_from :: "string \<Rightarrow> string \<Rightarrow> nat \<Rightarrow> string \<Rightarrow> string" where
  "replace_from old new k [] = []"
| "replace_from old new k (c # cs) =
     (if 0 < k then replace_from old new (k - 1) cs
      else if prefix old (c # cs) then new @ replace_from old new (length old - 1) cs
      else c # replace_from old new 0 cs)"

definition str_replace :: "string \<Rightarrow> string \<Rightarrow> string \<Rightarrow> string" where
  "str_replace s old new =
     (if old = [] then new @ concat (map (\<lambda>c. c # new) s) else replace_from old new 0 s)"

text \<open>The loop of \<^verbatim>\<open>make_block\<close> over \<^verbatim>\<open>model_dict.items()\<close>.\<close>

fun make_block_loop ::
  "string \<Rightarrow> (string \<times> 'w) list \<Rightarrow> (string \<times> 'w) list \<Rightarrow> (string \<times> 'w) list" where
  "make_block_loop block_prefix [] block_dict = block_dict"
| "make_block_loop block_prefix ((name, weights) # items) block_dict =
     (if str_in block_prefix name then
        (let block_name = str_replace name block_prefix []
         in if map_of block_dict block_name \<noteq> None
            then make_block_loop block_prefix items (AList.update name weights block_dict)
            else make_block_loop block_prefix items block_dict)
      else make_block_loop block_prefix items block_dict)"

text \<open>
  \<^verbatim>\<open>torch.nn.Module.load_state_dict\<close> with its default \<^verbatim>\<open>strict=True\<close>: a key of the
  module that is missing from the given dictionary, or a key of the dictionary that the
  module does not have, is a \<^verbatim>\<open>RuntimeError\<close>; otherwise every tensor of the module takes
  the given value. \<open>own\<close> is the state of the module before the call.
\<close>

definition load_state_dict ::
  "(string \<times> 'w) list \<Rightarrow> (string \<times> 'w) list \<Rightarrow> error + (string \<times> 'w) list" where
  "load_state_dict own sd =
     (let missing_keys = filter (\<lambda>k. k \<notin> set (map fst sd)) (map fst own);
          unexpected_keys = filter (\<lambda>k. k \<notin> set (map fst own)) (map fst sd)
      in if missing_keys = [] \<and> unexpected_keys = []
         then Inr (map (\<lambda>(k, v). (k, case map_of sd k of None \<Rightarrow> v | Some v' \<Rightarrow> v')) own)
         else Inl RuntimeError)"

text \<open>
  \<^verbatim>\<open>make_block\<close>. The parameter \<open>state_dict\<close> gives the \<^verbatim>\<open>state_dict()\<close> of a freshly
  constructed block (the block classes are not among the sources); the result is the block
  with the state it has after \<^verbatim>\<open>load_state_dict\<close>, and the output size.
\<close>

definition make_block ::
  "(block \<Rightarrow> (string \<times> 'w) list) \<Rightarrow> (string \<times> 'w) list \<Rightarrow> string \<Rightarrow> int \<Rightarrow> block_config \<Rightarrow>
   error + ((block \<times> (string \<times> 'w) list) \<times> int)" where
  "make_block state_dict model_dict block_prefix max_len bc =
     (case setup_block max_len bc of
        Inl e \<Rightarrow> Inl e
      | Inr (blk, osz) \<Rightarrow>
          (let block_dict = state_dict blk;
               block_dict = make_block_loop block_prefix model_dict block_dict
           in case load_state_dict (state_dict blk) block_dict of
                Inl e \<Rightarrow> Inl e
              | Inr loaded \<Rightarrow> Inr ((blk, loaded), osz)))"

section \<open>What the specification says, and inputs to run the code on\<close>



text \<open>The pooled size of a layer: the sum of the \<^verbatim>\<open>output_size\<close> values of its blocks.\<close>

definition layer_pooled_size :: "block_config list \<Rightarrow> int" where
  "layer_pooled_size lc = sum_list (map output_size lc)"

text \<open>
  The size of the classification head in the words of the specification: twice the sum of
  the layers' pooled sizes, or twice the pooled size of the last layer.
\<close>

definition claimed_final_size :: "config \<Rightarrow> int" where
  "claimed_final_size cfg =
     (if use_all_layer_outputs (model_cfg cfg)
      then 2 * sum_list (map layer_pooled_size (layers (model_cfg cfg)))
      else 2 * layer_pooled_size (last (layers (model_cfg cfg))))"





text \<open>A block descriptor of a given type, and a configuration with one layer of one block.\<close>

definition example_block :: "string \<Rightarrow> block_config" where
  "example_block t =
     \<lparr>block_type = t, input_size = 300, output_size = 50, width = 3, dropout_rate = 0.5,
      match_score = ''cosine'', share_weights = True\<rparr>"

definition example_config :: "string \<Rightarrow> string \<Rightarrow> bool \<Rightarrow> config" where
  "example_config t f u =
     \<lparr>embeddings_cfg = \<lparr>emb_size = 300, emb_path = ''vectors.bin'', emb_format = f,
                        emb_is_binary = True\<rparr>,
      model_cfg = \<lparr>max_length = 40, layers = [[example_block t]], use_all_layer_outputs = u\<rparr>\<rparr>"

text \<open>A small module tree for a model: an attention, a convolution and a linear head.\<close>

definition example_modules :: "unit model \<Rightarrow> nn_module" where
  "example_modules mdl =
     Module ''Model'' []
       [Module ''ABCNN1Attention'' [(''W1'', []), (''W2'', [])] [],
        Module ''Convolution'' [] [Module ''Conv2d'' [(''weight'', []), (''bias'', [])] []],
        Module ''Linear'' [(''weight'', []), (''bias'', [])] []]"

section \<open>What \<^verbatim>\<open>setup_datasets\<close> computes\<close>

text \<open>The words of a question after cleaning and stop-word removal, in reading order.\<close>

definition tokens :: "('q \<Rightarrow> string list) \<Rightarrow> string list \<Rightarrow> 'q \<Rightarrow> string list" where
  "tokens tokenize stops q = remove_stop_words stops (tokenize q)"

definition example_tokens ::
  "('q \<Rightarrow> string list) \<Rightarrow> string list \<Rightarrow> 'q example \<Rightarrow> string list" where
  "example_tokens tokenize stops ex =
     tokens tokenize stops (question1 ex) @ tokens tokenize stops (question2 ex)"

definition rows_tokens ::
  "('q \<Rightarrow> string list) \<Rightarrow> string list \<Rightarrow> 'q example list \<Rightarrow> string list" where
  "rows_tokens tokenize stops rows = concat (map (example_tokens tokenize stops) rows)"

fun dataset_tokens ::
  "('q \<Rightarrow> string list) \<Rightarrow> string list \<Rightarrow> 'q dataset \<Rightarrow> string list" where
  "dataset_tokens tokenize stops (DataFrame rows) = rows_tokens tokenize stops rows"
| "dataset_tokens tokenize stops (TensorDataset xs ys) = []"

definition all_tokens ::
  "('q \<Rightarrow> string list) \<Rightarrow> string list \<Rightarrow> (string \<times> 'q dataset) list \<Rightarrow> string list" where
  "all_tokens tokenize stops items =
     concat (map (\<lambda>(name, v). dataset_tokens tokenize stops v) items)"

text \<open>
  The dictionary after a sequence of words has gone through lines 225 and 226: a word that
  is not yet a key gets the current number of keys as its index.
\<close>

fun grow :: "word2index \<Rightarrow> string list \<Rightarrow> word2index" where
  "grow w2i [] = w2i"
| "grow w2i (word # rest) =
     grow (if map_of w2i word = None then AList.update word (int (length w2i)) w2i else w2i)
       rest"

text \<open>The index of a word that is a key of the dictionary.\<close>

definition word_index :: "word2index \<Rightarrow> string \<Rightarrow> int" where
  "word_index w2i w = (case map_of w2i w of None \<Rightarrow> 0 | Some i \<Rightarrow> i)"

text \<open>
  Lines 232 to 240 on one list: cut to \<^verbatim>\<open>length\<close> elements, then filled up with \<open>p\<close>.
\<close>

definition fit :: "int \<Rightarrow> 'a \<Rightarrow> 'a list \<Rightarrow> 'a list" where
  "fit max_len p xs =
     (let len = (if int (length xs) < max_len then int (length xs) else max_len);
          ys = slice_to xs len
      in if len < max_len then ys @ replicate (nat (max_len - len)) p else ys)"


text \<open>The elements of a list in the order of their first occurrence.\<close>

definition first_occurrences :: "'a list \<Rightarrow> 'a list" where
  "first_occurrences xs = rev (remdups (rev xs))"

text \<open>
  The tensors of one data frame, given the final dictionary \<open>W\<close>: for every row the two
  index sequences, and the labels.
\<close>

definition question_indices ::
  "('q \<Rightarrow> string list) \<Rightarrow> string list \<Rightarrow> int \<Rightarrow> word2index \<Rightarrow> 'q \<Rightarrow> int list" where
  "question_indices tokenize stops max_len W q =
     fit max_len 0 (map (word_index W) (tokens tokenize stops q))"

definition example_indices ::
  "('q \<Rightarrow> string list) \<Rightarrow> string list \<Rightarrow> int \<Rightarrow> word2index \<Rightarrow> 'q example \<Rightarrow> int list list"
where
  "example_indices tokenize stops max_len W ex =
     [question_indices tokenize stops max_len W (question1 ex),
      question_indices tokenize stops max_len W (question2 ex)]"

definition example_words ::
  "('q \<Rightarrow> string list) \<Rightarrow> string list \<Rightarrow> int \<Rightarrow> 'q example \<Rightarrow> string list list" where
  "example_words tokenize stops max_len ex =
     [fit max_len ''<PAD>'' (tokens tokenize stops (question1 ex)),
      fit max_len ''<PAD>'' (tokens tokenize stops (question2 ex))]"

fun to_tensor_dataset ::
  "('q \<Rightarrow> string list) \<Rightarrow> string list \<Rightarrow> int \<Rightarrow> word2index \<Rightarrow> 'q dataset \<Rightarrow> 'q dataset" where
  "to_tensor_dataset tokenize stops max_len W (DataFrame rows) =
     TensorDataset (map (example_indices tokenize stops max_len W) rows) (map is_duplicate rows)"
| "to_tensor_dataset tokenize stops max_len W (TensorDataset xs ys) = TensorDataset xs ys"

fun is_data_frame :: "'q dataset \<Rightarrow> bool" where
  "is_data_frame (DataFrame rows) = True"
| "is_data_frame (TensorDataset xs ys) = False"

text \<open>
  Every index of a \<^verbatim>\<open>TensorDataset\<close> lies in the range from 0 up to, not including, \<open>n\<close>;
  a data frame holds no index tensor.
\<close>

fun indices_below :: "int \<Rightarrow> 'q dataset \<Rightarrow> bool" where
  "indices_below n (TensorDataset xs ys) =
     list_all (list_all (list_all (\<lambda>i. 0 \<le> i \<and> i < n))) xs"
| "indices_below n (DataFrame rows) = False"

text \<open>
  A store for running the code: at address 0 a dictionary with one data frame of one row,
  whose questions are already split into words, and the empty dictionary elsewhere.
\<close>

definition example_rows :: "string list example list" where
  "example_rows =
     [\<lparr>question1 = [''what'', ''is'', ''ai''], question2 = [''is'', ''ai'', ''good'', ''now''],
       is_duplicate = 1\<rparr>]"

definition example_store :: "string list store" where
  "example_store a = (if a = 0 then [(''train'', DataFrame example_rows)] else [])"

definition example_tokenize :: "string list \<Rightarrow> string list" where
  "example_tokenize q = q"

definition example_word2index :: word2index where
  "example_word2index =
     [(''<PAD>'', 0), (''what'', 1), (''ai'', 2), (''good'', 3), (''now'', 4)]"

text \<open>
  A draw and two stores of word vectors for running \<^verbatim>\<open>setup_embedding_matrix\<close>: one store
  knows the word \<^verbatim>\<open>ai\<close> only, the other also has a vector for \<^verbatim>\<open><PAD>\<close>.
\<close>

definition example_draw :: "nat \<Rightarrow> nat \<Rightarrow> real" where
  "example_draw i j = 1 / 1000"



text \<open>
  A saved model state and the state of a fresh block for running \<^verbatim>\<open>make_block\<close>: the
  tensors are numbers, 0 for a freshly initialised one.
\<close>

definition example_state_dict :: "block \<Rightarrow> (string \<times> nat) list" where
  "example_state_dict blk = [(''conv.weight'', 0), (''conv.bias'', 0)]"

definition example_model_dict :: "(string \<times> nat) list" where
  "example_model_dict =
     [(''layers.0.blocks.0.conv.weight'', 7), (''layers.0.blocks.0.conv.bias'', 8),
      (''fc.weight'', 9)]"

section \<open>Sizes computed by \<^verbatim>\<open>setup_layer\<close> and \<^verbatim>\<open>setup_model\<close>\<close>

lemma setup_block_Inr: "setup_block ml bc = Inr (blk, osz) \<Longrightarrow> osz = output_size bc"
  by (auto simp: setup_block_def Let_def split: if_splits)

lemma setup_layer_loop_sizes:
  "setup_layer_loop ml lc blocks szs = Inr (blocks', szs') \<Longrightarrow> szs' = szs @ map output_size lc"
proof (induction lc arbitrary: blocks szs)
  case Nil
  then show ?case by simp
next
  case (Cons bc rest)
  from Cons.prems obtain blk osz where
    b: "setup_block ml bc = Inr (blk, osz)" and
    r: "setup_layer_loop ml rest (blocks @ [blk]) (szs @ [osz]) = Inr (blocks', szs')"
    by (auto split: sum.splits)
  from Cons.IH [OF r] setup_block_Inr [OF b] show ?case by simp
qed

lemma setup_layer_size:
  "setup_layer ml lc = Inr (lyr, sz) \<Longrightarrow> sz = layer_pooled_size lc"
  by (auto simp: setup_layer_def layer_pooled_size_def split: sum.splits
      dest: setup_layer_loop_sizes)

lemma setup_model_loop_sizes:
  "setup_model_loop ml lcs lyrs szs = Inr (lyrs', szs') \<Longrightarrow>
   szs' = szs @ map layer_pooled_size lcs"
proof (induction lcs arbitrary: lyrs szs)
  case Nil
  then show ?case by simp
next
  case (Cons lc rest)
  from Cons.prems obtain lyr sz where
    l: "setup_layer ml lc = Inr (lyr, sz)" and
    r: "setup_model_loop ml rest (lyrs @ [lyr]) (szs @ [sz]) = Inr (lyrs', szs')"
    by (auto split: sum.splits)
  from Cons.IH [OF r] setup_layer_size [OF l] show ?case by simp
qed

lemma example_setup_block:
  "setup_block 40 (example_block ''bcnn'') =
     Inr (BCNNBlock (Convolution 300 50 3 1) (WidthAP 3) 0.5, 50)"
  by (simp add: setup_block_def example_block_def)

lemma example_apply:
  "apply_fn weights_init (example_modules mdl) =
     Inr (Module ''Model'' []
       [Module ''ABCNN1Attention'' [(''W1'', [Xavier_normal]), (''W2'', [Xavier_normal])] [],
        Module ''Convolution'' []
          [Module ''Conv2d'' [(''weight'', [Xavier_normal]), (''bias'', [Constant 0])] []],
        Module ''Linear'' [(''weight'', [Xavier_normal]), (''bias'', [Constant 0])] []])"
  by (simp add: example_modules_def str_find_def init_attr_def)

lemma example_setup_model:
  "setup_model example_modules () (example_config ''bcnn'' ''word2vec'' u) =
     Inr (Model () [CNNLayer [BCNNBlock (Convolution 300 50 3 1) (WidthAP 3) 0.5]] u
            (if u then 700 else 100),
          Module ''Model'' []
       [Module ''ABCNN1Attention'' [(''W1'', [Xavier_normal]), (''W2'', [Xavier_normal])] [],
        Module ''Convolution'' []
          [Module ''Conv2d'' [(''weight'', [Xavier_normal]), (''bias'', [Constant 0])] []],
        Module ''Linear'' [(''weight'', [Xavier_normal]), (''bias'', [Constant 0])] []])"
  by (simp add: setup_model_def example_config_def setup_layer_def example_setup_block
      example_apply)

text \<open>
  C1, as the code has it. When \<^verbatim>\<open>setup_model\<close> returns a model, the size of its
  classification head is: with \<^verbatim>\<open>use_all_layer_outputs\<close>, twice the sum of the embedding
  size and of the pooled sizes of all layers; without it, twice the pooled size of the
  last layer, or twice the embedding size when the configuration has no layer.
\<close>

theorem setup_model_final_size:
  assumes "setup_model modules emb cfg = Inr (mdl, st)"
  shows "model_final_size mdl =
     (if use_all_layer_outputs (model_cfg cfg)
      then 2 * (emb_size (embeddings_cfg cfg) +
                sum_list (map layer_pooled_size (layers (model_cfg cfg))))
      else if layers (model_cfg cfg) = [] then 2 * emb_size (embeddings_cfg cfg)
      else 2 * layer_pooled_size (last (layers (model_cfg cfg))))"
  using assms
  by (auto simp: setup_model_def Let_def last_map split: sum.splits
      dest!: setup_model_loop_sizes)

theorem setup_model_final_size_witness:
  "model_final_size
     (Model () [CNNLayer [BCNNBlock (Convolution 300 50 3 1) (WidthAP 3) 0.5]] True 700) =
   2 * (emb_size (embeddings_cfg (example_config ''bcnn'' ''word2vec'' True)) +
        sum_list (map layer_pooled_size
          (layers (model_cfg (example_config ''bcnn'' ''word2vec'' True)))))"
  using setup_model_final_size [OF example_setup_model [of True, simplified]]
  by (simp add: example_config_def)

text \<open>
  With one layer of one block of output size 50, embeddings of size 300 and
  \<^verbatim>\<open>use_all_layer_outputs\<close>, the head has size 700, where twice the sum of the layers'
  pooled sizes is 100.
\<close>

theorem setup_model_final_size_counterexample:
  "setup_model example_modules () (example_config ''bcnn'' ''word2vec'' True) =
     Inr (Model () [CNNLayer [BCNNBlock (Convolution 300 50 3 1) (WidthAP 3) 0.5]] True 700,
          Module ''Model'' []
       [Module ''ABCNN1Attention'' [(''W1'', [Xavier_normal]), (''W2'', [Xavier_normal])] [],
        Module ''Convolution'' []
          [Module ''Conv2d'' [(''weight'', [Xavier_normal]), (''bias'', [Constant 0])] []],
        Module ''Linear'' [(''weight'', [Xavier_normal]), (''bias'', [Constant 0])] []])
   \<and> claimed_final_size (example_config ''bcnn'' ''word2vec'' True) = 100"
proof -
  have "claimed_final_size (example_config ''bcnn'' ''word2vec'' True) = 100"
    by (simp add: claimed_final_size_def layer_pooled_size_def example_config_def
        example_block_def)
  with example_setup_model [of True] show ?thesis by simp
qed

section \<open>Configuration errors\<close>











section \<open>The convolution of a block\<close>



section \<open>Weight initialisation\<close>
















section \<open>The word index\<close>

lemma update_absent: "map_of al k = None \<Longrightarrow> AList.update k v al = al @ [(k, v)]"
  by (induction al) (auto split: if_splits)

lemma grow_append: "grow w2i (xs @ ys) = grow (grow w2i xs) ys"
  by (induction xs arbitrary: w2i) simp_all

lemma map_of_grow_stable:
  "map_of w2i w = Some i \<Longrightarrow> map_of (grow w2i ws) w = Some i"
proof (induction ws arbitrary: w2i)
  case Nil
  then show ?case by simp
next
  case (Cons x ws)
  show ?case
  proof (cases "map_of w2i x = None")
    case True
    with Cons.prems have "x \<noteq> w" by auto
    with Cons.prems have "map_of (AList.update x (int (length w2i)) w2i) w = Some i"
      by (simp add: update_conv')
    from Cons.IH [OF this] True show ?thesis by simp
  next
    case False
    then have "grow w2i (x # ws) = grow w2i ws" by auto
    with Cons.IH [OF Cons.prems] show ?thesis by simp
  qed
qed

lemma keys_grow: "fst ` set (grow w2i ws) = fst ` set w2i \<union> set ws"
proof (induction ws arbitrary: w2i)
  case Nil
  then show ?case by simp
next
  case (Cons x ws)
  show ?case
  proof (cases "map_of w2i x = None")
    case True
    then show ?thesis by (simp add: Cons.IH dom_update)
  next
    case False
    then have "x \<in> fst ` set w2i" by (simp add: map_of_eq_None_iff)
    with False show ?thesis by (auto simp: Cons.IH)
  qed
qed

lemma word_index_grow:
  assumes "w \<in> fst ` set w2i"
  shows "word_index (grow w2i ws) w = word_index w2i w"
proof -
  from assms obtain i where i: "map_of w2i w = Some i"
    by (cases "map_of w2i w") (auto simp: map_of_eq_None_iff)
  from map_of_grow_stable [OF i] i show ?thesis by (simp add: word_index_def)
qed

lemma map_word_index_grow:
  "set xs \<subseteq> fst ` set w2i \<Longrightarrow> map (word_index (grow w2i ws)) xs = map (word_index w2i) xs"
  by (induction xs) (simp_all add: word_index_grow)

lemma index_words_eq:
  "index_words w2i ws acc = Inr (grow w2i ws, acc @ map (word_index (grow w2i ws)) ws)"
proof (induction ws arbitrary: w2i acc)
  case Nil
  then show ?case by simp
next
  case (Cons x ws)
  define w2i' where
    "w2i' = (if map_of w2i x = None then AList.update x (int (length w2i)) w2i else w2i)"
  have "map_of w2i' x \<noteq> None"
    by (simp add: w2i'_def update_conv')
  then obtain i where i: "map_of w2i' x = Some i" by blast
  from map_of_grow_stable [OF i] have "word_index (grow w2i' ws) x = i"
    by (simp add: word_index_def)
  with i Cons.IH [of w2i' "acc @ [i]"] show ?case
    by (simp add: w2i'_def [symmetric] Let_def)
qed

section \<open>The loops of \<^verbatim>\<open>setup_datasets\<close>\<close>

lemma index_question_eq:
  "index_question tokenize stops L w2i q =
     Inr (grow w2i (tokens tokenize stops q),
          fit L 0 (map (word_index (grow w2i (tokens tokenize stops q))) (tokens tokenize stops q)),
          fit L ''<PAD>'' (tokens tokenize stops q))"
  by (simp add: index_question_def index_words_eq fit_def tokens_def Let_def)

lemma question_indices_grow:
  assumes "set (tokens tokenize stops q) \<subseteq> fst ` set w2i"
  shows "question_indices tokenize stops L (grow w2i ws) q = question_indices tokenize stops L w2i q"
proof -
  have "map (word_index (grow w2i ws)) (tokens tokenize stops q) =
        map (word_index w2i) (tokens tokenize stops q)"
    using assms by (rule map_word_index_grow)
  then show ?thesis unfolding question_indices_def by (rule arg_cong)
qed

lemma example_indices_grow:
  assumes "set (example_tokens tokenize stops ex) \<subseteq> fst ` set w2i"
  shows "example_indices tokenize stops L (grow w2i ws) ex = example_indices tokenize stops L w2i ex"
proof -
  from assms have "set (tokens tokenize stops (question1 ex)) \<subseteq> fst ` set w2i"
    and "set (tokens tokenize stops (question2 ex)) \<subseteq> fst ` set w2i"
    by (simp_all add: example_tokens_def)
  then show ?thesis by (simp add: example_indices_def question_indices_grow)
qed

lemma columns_loop_eq:
  "columns_loop tokenize stops L ex question_cols w2i [] [] =
     Inr (grow w2i (example_tokens tokenize stops ex),
          example_indices tokenize stops L (grow w2i (example_tokens tokenize stops ex)) ex,
          example_words tokenize stops L ex)"
proof -
  let ?t1 = "tokens tokenize stops (question1 ex)"
  let ?t2 = "tokens tokenize stops (question2 ex)"
  have "set ?t1 \<subseteq> fst ` set (grow w2i ?t1)" by (simp add: keys_grow)
  from question_indices_grow [OF this, of L ?t2]
  have "fit L 0 (map (word_index (grow (grow w2i ?t1) ?t2)) ?t1) =
        fit L 0 (map (word_index (grow w2i ?t1)) ?t1)"
    by (simp add: question_indices_def)
  then show ?thesis
    by (simp add: question_cols_def index_question_eq example_tokens_def grow_append
        example_indices_def example_words_def question_indices_def)
qed

lemma map_example_indices_grow:
  "set (rows_tokens tokenize stops rows) \<subseteq> fst ` set w2i \<Longrightarrow>
   map (example_indices tokenize stops L (grow w2i ws)) rows =
   map (example_indices tokenize stops L w2i) rows"
  by (induction rows) (simp_all add: rows_tokens_def example_indices_grow)

lemma rows_loop_eq:
  "rows_loop tokenize stops L rows w2i labels ixs pts =
     Inr (grow w2i (rows_tokens tokenize stops rows),
          labels @ map is_duplicate rows,
          ixs @ map (example_indices tokenize stops L (grow w2i (rows_tokens tokenize stops rows))) rows,
          pts @ map (example_words tokenize stops L) rows)"
proof (induction rows arbitrary: w2i labels ixs pts)
  case Nil
  then show ?case by (simp add: rows_tokens_def)
next
  case (Cons ex rows)
  let ?w1 = "grow w2i (example_tokens tokenize stops ex)"
  have "set (example_tokens tokenize stops ex) \<subseteq> fst ` set ?w1"
    by (simp add: keys_grow)
  from example_indices_grow [OF this]
  have e: "example_indices tokenize stops L (grow ?w1 (rows_tokens tokenize stops rows)) ex =
           example_indices tokenize stops L ?w1 ex" .
  have g: "grow w2i (rows_tokens tokenize stops (ex # rows)) =
           grow ?w1 (rows_tokens tokenize stops rows)"
    by (simp add: rows_tokens_def grow_append)
  show ?case
    by (simp add: columns_loop_eq Cons.IH g e)
qed

lemma to_tensor_dataset_grow:
  "set (dataset_tokens tokenize stops v) \<subseteq> fst ` set w2i \<Longrightarrow>
   to_tensor_dataset tokenize stops L (grow w2i ws) v = to_tensor_dataset tokenize stops L w2i v"
  by (cases v) (simp_all add: map_example_indices_grow)

lemma long_tensor_Inr: "long_tensor xs = Inr ys \<Longrightarrow> ys = xs"
  by (auto simp: long_tensor_def split: list.splits if_splits)

lemma long_tensor_same_length:
  assumes "\<forall>ex \<in> set xsss. \<forall>s \<in> set ex. length s = n"
  shows "long_tensor xsss = Inr xsss"
proof (cases "concat xsss")
  case Nil
  show ?thesis unfolding long_tensor_def Nil by simp
next
  case (Cons s ss)
  from assms have "\<forall>t \<in> set (concat xsss). length t = n" by auto
  with Cons have "length s = n" "\<forall>t \<in> set ss. length t = n" by simp_all
  then show ?thesis unfolding long_tensor_def Cons by (simp add: list_all_iff)
qed

lemma length_fit: "0 \<le> L \<Longrightarrow> length (fit L p xs) = nat L"
  by (auto simp: fit_def slice_to_def Let_def)


lemma long_tensor_example_indices:
  assumes "0 \<le> L"
  shows "long_tensor (map (example_indices tokenize stops L W) rows) =
         Inr (map (example_indices tokenize stops L W) rows)"
proof (rule long_tensor_same_length [where n = "nat L"])
  show "\<forall>ex \<in> set (map (example_indices tokenize stops L W) rows). \<forall>s \<in> set ex.
          length s = nat L"
    using assms by (auto simp: example_indices_def question_indices_def length_fit)
qed

lemma all_tokens_Cons:
  "all_tokens tokenize stops ((name, v) # items) =
     dataset_tokens tokenize stops v @ all_tokens tokenize stops items"
  by (simp add: all_tokens_def)

lemma datasets_loop_Inr:
  "datasets_loop tokenize stops L d items st texts w2i = Inr (st', texts', W) \<Longrightarrow>
   W = grow w2i (all_tokens tokenize stops items)
   \<and> list_all (\<lambda>(name, v). is_data_frame v) items
   \<and> (\<forall>a. a \<noteq> d \<longrightarrow> st' a = st a)
   \<and> st' d = fold (\<lambda>(name, v). AList.update name (to_tensor_dataset tokenize stops L W v))
               items (st d)"
proof (induction items arbitrary: st texts w2i)
  case Nil
  then show ?case by (simp add: all_tokens_def)
next
  case (Cons item items)
  obtain name v where item: "item = (name, v)" by (cases item)
  show ?case
  proof (cases v)
    case (TensorDataset xs ys)
    with Cons.prems item show ?thesis by simp
  next
    case (DataFrame rows)
    let ?w1 = "grow w2i (rows_tokens tokenize stops rows)"
    let ?ixs = "map (example_indices tokenize stops L ?w1) rows"
    let ?st1 = "st(d := AList.update name (TensorDataset ?ixs (map is_duplicate rows)) (st d))"
    let ?texts1 = "AList.update name (map (example_words tokenize stops L) rows) texts"
    from Cons.prems item DataFrame obtain ixs' where
      lt: "long_tensor ?ixs = Inr ixs'" and
      rest: "datasets_loop tokenize stops L d items
               (st(d := AList.update name (TensorDataset ixs' (map is_duplicate rows)) (st d)))
               ?texts1 ?w1 = Inr (st', texts', W)"
      by (auto simp: rows_loop_eq Let_def split: sum.splits)
    from long_tensor_Inr [OF lt] rest
    have rest': "datasets_loop tokenize stops L d items ?st1 ?texts1 ?w1 = Inr (st', texts', W)"
      by simp
    from Cons.IH [OF rest'] have
      W: "W = grow ?w1 (all_tokens tokenize stops items)" and
      df: "list_all (\<lambda>(name, v). is_data_frame v) items" and
      fr: "\<forall>a. a \<noteq> d \<longrightarrow> st' a = ?st1 a" and
      up: "st' d = fold (\<lambda>(name, v). AList.update name (to_tensor_dataset tokenize stops L W v))
                    items (?st1 d)"
      by blast+
    have W': "W = grow w2i (all_tokens tokenize stops (item # items))"
      using W item DataFrame by (simp add: all_tokens_Cons grow_append)
    have "set (dataset_tokens tokenize stops v) \<subseteq> fst ` set ?w1"
      using DataFrame by (simp add: keys_grow)
    from to_tensor_dataset_grow [OF this, of L "all_tokens tokenize stops items"] W
    have "to_tensor_dataset tokenize stops L W v = to_tensor_dataset tokenize stops L ?w1 v"
      by simp
    with DataFrame have "to_tensor_dataset tokenize stops L W v =
        TensorDataset ?ixs (map is_duplicate rows)" by simp
    with up have up': "st' d =
        fold (\<lambda>(name, v). AList.update name (to_tensor_dataset tokenize stops L W v))
          (item # items) (st d)"
      by (simp add: item)
    from fr have "\<forall>a. a \<noteq> d \<longrightarrow> st' a = st a" by simp
    with W' df up' item DataFrame show ?thesis by simp
  qed
qed

lemma datasets_loop_total:
  assumes "0 \<le> L"
  shows "list_all (\<lambda>(name, v). is_data_frame v) items \<Longrightarrow>
         \<exists>r. datasets_loop tokenize stops L d items st texts w2i = Inr r"
proof (induction items arbitrary: st texts w2i)
  case Nil
  then show ?case by simp
next
  case (Cons item items)
  obtain name v where item: "item = (name, v)" by (cases item)
  with Cons.prems obtain rows where v: "v = DataFrame rows"
    by (cases v) simp_all
  from Cons.prems have "list_all (\<lambda>(name, v). is_data_frame v) items" by simp
  from Cons.IH [OF this] show ?case
    by (simp add: item v rows_loop_eq long_tensor_example_indices [OF assms] Let_def)
qed

lemma update_append_absent:
  "k \<notin> fst ` set xs \<Longrightarrow> AList.update k v (xs @ ys) = xs @ AList.update k v ys"
  by (induction xs) auto

lemma fold_update_own:
  "distinct (map fst (done @ todo)) \<Longrightarrow>
   fold (\<lambda>(k, v). AList.update k (f v)) todo (map (\<lambda>(k, v). (k, f v)) done @ todo) =
   map (\<lambda>(k, v). (k, f v)) (done @ todo)"
proof (induction todo arbitrary: "done")
  case Nil
  then show ?case by simp
next
  case (Cons item todo)
  obtain k v where item: "item = (k, v)" by (cases item)
  from Cons.prems item have "k \<notin> fst ` set (map (\<lambda>(k, v). (k, f v)) done)"
    by (auto simp: image_iff)
  then have "AList.update k (f v) (map (\<lambda>(k, v). (k, f v)) done @ (k, v) # todo) =
             map (\<lambda>(k, v). (k, f v)) (done @ [(k, v)]) @ todo"
    by (simp add: update_append_absent)
  moreover from Cons.prems item have "distinct (map fst ((done @ [(k, v)]) @ todo))"
    by simp
  from Cons.IH [OF this]
  have "fold (\<lambda>(k, v). AList.update k (f v)) todo
          (map (\<lambda>(k, v). (k, f v)) (done @ [(k, v)]) @ todo) =
        map (\<lambda>(k, v). (k, f v)) ((done @ [(k, v)]) @ todo)" .
  ultimately show ?case by (simp add: item)
qed

lemma fold_update_dict:
  assumes "distinct (map fst al)"
  shows "fold (\<lambda>(k, v). AList.update k (f v)) al al = map (\<lambda>(k, v). (k, f v)) al"
  using fold_update_own [of "[]" al f] assms by simp

text \<open>
  What a successful run of \<^verbatim>\<open>setup_datasets\<close> returns and leaves in the store, when the
  keys of the dictionary are distinct, as those of a Python dictionary are.
\<close>

lemma setup_datasets_Inr:
  assumes "setup_datasets tokenize stops st d es L = Inr (st', d', texts, W)"
    and "distinct (map fst (st d))"
  shows "d' = d"
    and "W = grow [(''<PAD>'', 0)] (all_tokens tokenize stops (st d))"
    and "list_all (\<lambda>(name, v). is_data_frame v) (st d)"
    and "\<forall>a. a \<noteq> d \<longrightarrow> st' a = st a"
    and "st' d = map (\<lambda>(name, v). (name, to_tensor_dataset tokenize stops L W v)) (st d)"
proof -
  from assms(1) obtain texts' where
    l: "datasets_loop tokenize stops L d (st d) st [] [(''<PAD>'', 0)] = Inr (st', texts', W)"
    and d: "d' = d"
    by (auto simp: setup_datasets_def Let_def split: sum.splits)
  from d show "d' = d" .
  from datasets_loop_Inr [OF l]
  show "W = grow [(''<PAD>'', 0)] (all_tokens tokenize stops (st d))"
    and "list_all (\<lambda>(name, v). is_data_frame v) (st d)"
    and "\<forall>a. a \<noteq> d \<longrightarrow> st' a = st a"
    by blast+
  from datasets_loop_Inr [OF l]
  have "st' d = fold (\<lambda>(name, v). AList.update name (to_tensor_dataset tokenize stops L W v))
                  (st d) (st d)" by blast
  with fold_update_dict [OF assms(2)]
  show "st' d = map (\<lambda>(name, v). (name, to_tensor_dataset tokenize stops L W v)) (st d)"
    by simp
qed

lemma setup_datasets_total:
  assumes "0 \<le> L" and "list_all (\<lambda>(name, v). is_data_frame v) (st d)"
  shows "\<exists>st' texts W. setup_datasets tokenize stops st d es L = Inr (st', d, texts, W)"
proof -
  from datasets_loop_total [OF assms, of tokenize stops d st "[]" "[(''<PAD>'', 0)]"]
  obtain r where "datasets_loop tokenize stops L d (st d) st [] [(''<PAD>'', 0)] = Inr r"
    by blast
  then show ?thesis by (cases r) (simp add: setup_datasets_def)
qed

section \<open>Indices are consecutive\<close>

lemma grow_values:
  "map snd w2i = map int [0..<length w2i] \<Longrightarrow>
   map snd (grow w2i ws) = map int [0..<length (grow w2i ws)]"
proof (induction ws arbitrary: w2i)
  case Nil
  then show ?case by simp
next
  case (Cons x ws)
  show ?case
  proof (cases "map_of w2i x = None")
    case True
    let ?w = "w2i @ [(x, int (length w2i))]"
    from Cons.prems have "map snd ?w = map int [0..<length ?w]" by simp
    from Cons.IH [OF this] True show ?thesis by (simp add: update_absent)
  next
    case False
    then have "grow w2i (x # ws) = grow w2i ws" by auto
    with Cons.IH [OF Cons.prems] show ?thesis by simp
  qed
qed

lemma first_occurrences_snoc:
  "first_occurrences (xs @ [x]) =
     (if x \<in> set xs then first_occurrences xs else first_occurrences xs @ [x])"
  by (simp add: first_occurrences_def)

lemma first_occurrences_distinct: "distinct xs \<Longrightarrow> first_occurrences xs = xs"
  by (simp add: first_occurrences_def distinct_remdups_id)

lemma first_occurrences_append:
  "first_occurrences (xs @ ys) = first_occurrences (first_occurrences xs @ ys)"
proof (induction ys rule: rev_induct)
  case Nil
  then show ?case by (simp add: first_occurrences_def remdups_remdups)
next
  case (snoc y ys)
  have s: "set (first_occurrences xs) = set xs" by (simp add: first_occurrences_def)
  have l: "first_occurrences ((xs @ ys) @ [y]) =
           (if y \<in> set (xs @ ys) then first_occurrences (xs @ ys)
            else first_occurrences (xs @ ys) @ [y])"
    by (rule first_occurrences_snoc)
  have r: "first_occurrences ((first_occurrences xs @ ys) @ [y]) =
           (if y \<in> set (first_occurrences xs @ ys)
            then first_occurrences (first_occurrences xs @ ys)
            else first_occurrences (first_occurrences xs @ ys) @ [y])"
    by (rule first_occurrences_snoc)
  define a where "a = first_occurrences (xs @ ys)"
  define b where "b = first_occurrences (first_occurrences xs @ ys)"
  have ab: "a = b" unfolding a_def b_def by (rule snoc.IH)
  have m: "(y \<in> set (first_occurrences xs @ ys)) = (y \<in> set (xs @ ys))" using s by simp
  have "first_occurrences ((xs @ ys) @ [y]) = (if y \<in> set (xs @ ys) then a else a @ [y])"
    unfolding a_def by (rule l)
  moreover have "first_occurrences ((first_occurrences xs @ ys) @ [y]) =
                 (if y \<in> set (xs @ ys) then b else b @ [y])"
    unfolding b_def m [symmetric] by (rule r)
  ultimately have "first_occurrences ((xs @ ys) @ [y]) =
                   first_occurrences ((first_occurrences xs @ ys) @ [y])"
    using ab by simp
  then show ?case by simp
qed

lemma grow_keys:
  "distinct (map fst w2i) \<Longrightarrow> map fst (grow w2i ws) = first_occurrences (map fst w2i @ ws)"
proof (induction ws arbitrary: w2i)
  case Nil
  then show ?case by (simp add: first_occurrences_distinct)
next
  case (Cons x ws)
  show ?case
  proof (cases "map_of w2i x = None")
    case True
    then have nx: "x \<notin> set (map fst w2i)" by (simp add: map_of_eq_None_iff)
    let ?w = "w2i @ [(x, int (length w2i))]"
    from Cons.prems nx have d: "distinct (map fst ?w)" by simp
    from True have g: "grow w2i (x # ws) = grow ?w ws" by (simp add: update_absent)
    have "map fst (grow ?w ws) = first_occurrences (map fst ?w @ ws)"
      using d by (rule Cons.IH)
    also have "map fst ?w @ ws = map fst w2i @ x # ws" by simp
    finally show ?thesis unfolding g .
  next
    case False
    then have g: "grow w2i (x # ws) = grow w2i ws" by auto
    from False have xin: "x \<in> set (map fst w2i)" by (simp add: map_of_eq_None_iff)
    have "map fst w2i @ x # ws = (map fst w2i @ [x]) @ ws" by simp
    then have "first_occurrences (map fst w2i @ x # ws) =
               first_occurrences ((map fst w2i @ [x]) @ ws)" by (rule arg_cong)
    also have "\<dots> = first_occurrences (first_occurrences (map fst w2i @ [x]) @ ws)"
      by (rule first_occurrences_append)
    also have "first_occurrences (map fst w2i @ [x]) = first_occurrences (map fst w2i)"
      using xin by (simp add: first_occurrences_snoc)
    also have "first_occurrences (first_occurrences (map fst w2i) @ ws) =
               first_occurrences (map fst w2i @ ws)"
      by (rule first_occurrences_append [symmetric])
    finally have "first_occurrences (map fst w2i @ x # ws) =
                  first_occurrences (map fst w2i @ ws)" .
    moreover have "map fst (grow w2i ws) = first_occurrences (map fst w2i @ ws)"
      using Cons.prems by (rule Cons.IH)
    ultimately show ?thesis unfolding g by (rule ssubst [where P = "\<lambda>z. map fst (grow w2i ws) = z"])
  qed
qed

lemma index_of_entry:
  assumes "map snd W = map int [0..<length W]" and "map_of W w = Some i"
  shows "\<exists>j < length W. W ! j = (w, i) \<and> i = int j"
proof -
  from assms(2) have "(w, i) \<in> set W" by (rule map_of_SomeD)
  then obtain j where j: "j < length W" "W ! j = (w, i)" by (auto simp: in_set_conv_nth)
  then have "map snd W ! j = i" by simp
  with assms(1) j(1) have "i = int j" by simp
  with j show ?thesis by blast
qed

lemma index_in_range:
  assumes "map snd W = map int [0..<length W]" and "map_of W w = Some i"
  shows "0 \<le> i \<and> i < int (length W)"
  using index_of_entry [OF assms] by auto

lemma index_zero_is_first:
  assumes "map snd W = map int [0..<length W]" and "map_of W w = Some 0"
  shows "w = fst (hd W)"
proof -
  from index_of_entry [OF assms] obtain j where "j < length W" "W ! j = (w, 0)" "0 = int j"
    by blast
  then have "W ! 0 = (w, 0)" "W \<noteq> []" by auto
  then show ?thesis by (simp add: hd_conv_nth)
qed

lemma word_index_in_range:
  assumes "map snd W = map int [0..<length W]" and "W \<noteq> []"
  shows "0 \<le> word_index W w \<and> word_index W w < int (length W)"
proof (cases "map_of W w")
  case None
  with assms(2) show ?thesis by (simp add: word_index_def)
next
  case (Some i)
  with index_in_range [OF assms(1) Some] show ?thesis by (simp add: word_index_def)
qed

lemma setup_datasets_word2index:
  assumes "setup_datasets tokenize stops st d es L = Inr (st', d', texts, W)"
  shows "W = grow [(''<PAD>'', 0)] (all_tokens tokenize stops (st d))"
proof -
  from assms obtain texts' where
    "datasets_loop tokenize stops L d (st d) st [] [(''<PAD>'', 0)] = Inr (st', texts', W)"
    by (auto simp: setup_datasets_def Let_def split: sum.splits)
  from datasets_loop_Inr [OF this] show ?thesis by blast
qed

lemma word2index_shape:
  assumes "W = grow [(''<PAD>'', 0)] ws"
  shows "map snd W = map int [0..<length W]"
    and "map fst W = first_occurrences (''<PAD>'' # ws)"
    and "distinct (map fst W)"
    and "W \<noteq> []"
    and "hd W = (''<PAD>'', 0)"
proof -
  have "map snd [(''<PAD>'', 0::int)] = map int [0..<length [(''<PAD>'', 0::int)]]" by simp
  from grow_values [OF this] assms show v: "map snd W = map int [0..<length W]" by simp
  have "distinct (map fst [(''<PAD>'', 0::int)])" by simp
  from grow_keys [OF this] assms show k: "map fst W = first_occurrences (''<PAD>'' # ws)"
    by simp
  then show "distinct (map fst W)" by (simp add: first_occurrences_def)
  have p: "map_of W ''<PAD>'' = Some 0"
    unfolding assms by (rule map_of_grow_stable) simp
  then show ne: "W \<noteq> []" by auto
  from index_zero_is_first [OF v p] have f: "fst (hd W) = ''<PAD>''" by simp
  from ne have l: "0 < length W" by simp
  from v have "map snd W ! 0 = map int [0..<length W] ! 0" by simp
  with l have "snd (W ! 0) = 0" by simp
  with ne have "snd (hd W) = 0" by (simp add: hd_conv_nth)
  with f show "hd W = (''<PAD>'', 0)" by (cases "hd W") simp
qed

section \<open>The tensors and the dictionary of \<^verbatim>\<open>setup_datasets\<close>\<close>

lemma example_all_tokens:
  "all_tokens example_tokenize [''is''] (example_store 0) =
     [''what'', ''ai'', ''ai'', ''good'', ''now'']"
  by (simp add: all_tokens_def rows_tokens_def example_tokens_def tokens_def
      remove_stop_words_def example_store_def example_rows_def example_tokenize_def)

lemma example_grow:
  "grow [(''<PAD>'', 0)] [''what'', ''ai'', ''ai'', ''good'', ''now''] = example_word2index"
  by (simp add: example_word2index_def)


lemma example_store_wf:
  "distinct (map fst (example_store 0))"
  "list_all (\<lambda>(name, v). is_data_frame v) (example_store 0)"
  by (simp_all add: example_store_def)





text \<open>
  C10. In the dictionary that \<^verbatim>\<open>setup_datasets\<close> returns, \<^verbatim>\<open><PAD>\<close> has index 0; the keys
  are \<^verbatim>\<open><PAD>\<close> and the words of all questions in the order of their first occurrence,
  and their indices are 0, 1, 2 and so on in that order; no key other than \<^verbatim>\<open><PAD>\<close> has
  index 0. One step of the indexing loop gives a word that is not a key the current number
  of keys as index, and leaves the dictionary as it is for a word that is a key.
\<close>

theorem word2index_reserves_zero:
  assumes "setup_datasets tokenize stops st d es L = Inr (st', d', texts, W)"
  shows "map_of W ''<PAD>'' = Some 0
     \<and> map fst W = first_occurrences (''<PAD>'' # all_tokens tokenize stops (st d))
     \<and> map snd W = map int [0..<length W]
     \<and> (\<forall>w. map_of W w = Some 0 \<longrightarrow> w = ''<PAD>'')
     \<and> (\<forall>w2i word acc. index_words w2i [word] acc =
           Inr (if map_of w2i word = None
                then (w2i @ [(word, int (length w2i))], acc @ [int (length w2i)])
                else (w2i, acc @ [word_index w2i word])))"
proof -
  note W = setup_datasets_word2index [OF assms]
  note s = word2index_shape [OF W]
  have p: "map_of W ''<PAD>'' = Some 0"
    unfolding W by (rule map_of_grow_stable) simp
  have z: "\<forall>w. map_of W w = Some 0 \<longrightarrow> w = ''<PAD>''"
    using index_zero_is_first [OF s(1)] s(5) by auto
  have "index_words w2i [word] acc =
           Inr (if map_of w2i word = None
                then (w2i @ [(word, int (length w2i))], acc @ [int (length w2i)])
                else (w2i, acc @ [word_index w2i word]))" for w2i word acc
  proof (cases "map_of w2i word = None")
    case True
    then have "map_of (AList.update word (int (length w2i)) w2i) word = Some (int (length w2i))"
      by (simp add: update_conv')
    with True show ?thesis by (simp add: update_absent [symmetric])
  next
    case False
    then show ?thesis by (auto simp: word_index_def)
  qed
  with p s(1,2) z show ?thesis by blast
qed

theorem word2index_reserves_zero_witness:
  "\<exists>st' texts W. setup_datasets example_tokenize [''is''] example_store 0 300 3 =
       Inr (st', 0, texts, W)
     \<and> map_of W ''<PAD>'' = Some 0
     \<and> map fst W = [''<PAD>'', ''what'', ''ai'', ''good'', ''now'']
     \<and> map snd W = [0, 1, 2, 3, 4]"
proof -
  have l: "(0::int) \<le> 3" by simp
  from setup_datasets_total [where st = example_store and d = 0
      and tokenize = example_tokenize and stops = "[''is'']" and es = 300,
      OF l example_store_wf(2)]
  obtain st' texts W where
    r: "setup_datasets example_tokenize [''is''] example_store 0 300 3 = Inr (st', 0, texts, W)"
    by blast
  from word2index_reserves_zero [OF r] have
    p: "map_of W ''<PAD>'' = Some 0" and
    k: "map fst W =
        first_occurrences (''<PAD>'' # all_tokens example_tokenize [''is''] (example_store 0))"
    and v: "map snd W = map int [0..<length W]"
    by blast+
  from k have k': "map fst W = [''<PAD>'', ''what'', ''ai'', ''good'', ''now'']"
    by (simp add: example_all_tokens first_occurrences_def)
  then have "length (map fst W) = 5" by simp
  then have "length W = 5" by simp
  with v have "map snd W = [0, 1, 2, 3, 4]" by (simp add: upt_rec)
  with r p k' have
    "setup_datasets example_tokenize [''is''] example_store 0 300 3 = Inr (st', 0, texts, W)
     \<and> map_of W ''<PAD>'' = Some 0
     \<and> map fst W = [''<PAD>'', ''what'', ''ai'', ''good'', ''now'']
     \<and> map snd W = [0, 1, 2, 3, 4]"
    by simp
  then show ?thesis by (intro exI)
qed

section \<open>The rows of the embedding matrix\<close>

lemma set_row_length: "set_row e cols i vec = Inr e' \<Longrightarrow> length e' = length e"
  by (auto simp: set_row_def Let_def split: if_splits)

lemma fill_loop_length: "fill_loop wv cols items e = Inr e' \<Longrightarrow> length e' = length e"
proof (induction items arbitrary: e)
  case Nil
  then show ?case by simp
next
  case (Cons item items)
  obtain w i where item: "item = (w, i)" by (cases item)
  show ?case
  proof (cases "wv w")
    case (Inl err)
    with Cons.prems item have "fill_loop wv cols items e = Inr e'"
      by (cases err) simp_all
    then show ?thesis by (rule Cons.IH)
  next
    case (Inr vec)
    show ?thesis
    proof (cases "set_row e cols i vec")
      case (Inl err)
      with Cons.prems item \<open>wv w = Inr vec\<close> have "fill_loop wv cols items e = Inr e'"
        by (cases err) simp_all
      then show ?thesis by (rule Cons.IH)
    next
      case (Inr e1)
      with Cons.prems item \<open>wv w = Inr vec\<close> have "fill_loop wv cols items e1 = Inr e'"
        by simp
      from Cons.IH [OF this] set_row_length [OF Inr] show ?thesis by simp
    qed
  qed
qed

lemma setup_embedding_matrix_length:
  assumes "setup_embedding_matrix rnd wv w2i es = Inr E"
  shows "length E = length w2i + 1"
proof (cases wv)
  case None
  with assms show ?thesis
    by (auto simp: setup_embedding_matrix_def uniform_matrix_def Let_def split: if_splits)
next
  case (Some f)
  with assms have "fill_loop f (nat es) w2i
      ((uniform_matrix rnd (length w2i + 1) (nat es))[0 := replicate (nat es) 0]) = Inr E"
    by (auto simp: setup_embedding_matrix_def Let_def split: if_splits)
  from fill_loop_length [OF this] show ?thesis by (simp add: uniform_matrix_def)
qed

lemma set_fit: "set (fit L p xs) \<subseteq> insert p (set xs)"
proof -
  have "set (slice_to xs n) \<subseteq> set xs" for n
    by (auto simp: slice_to_def dest: in_set_takeD)
  then show ?thesis by (auto simp: fit_def Let_def)
qed

lemma question_indices_in_range:
  assumes "map snd W = map int [0..<length W]" and "W \<noteq> []"
  shows "list_all (\<lambda>i. 0 \<le> i \<and> i < int (length W)) (question_indices tokenize stops L W q)"
proof -
  have "0 \<le> i \<and> i < int (length W)"
    if "i \<in> set (question_indices tokenize stops L W q)" for i
  proof -
    from that set_fit have "i = 0 \<or> i \<in> set (map (word_index W) (tokens tokenize stops q))"
      unfolding question_indices_def by fastforce
    with word_index_in_range [OF assms] assms(2) show ?thesis by auto
  qed
  then show ?thesis by (simp add: list_all_iff)
qed

lemma to_tensor_dataset_in_range:
  assumes "map snd W = map int [0..<length W]" and "W \<noteq> []" and "is_data_frame v"
  shows "indices_below (int (length W)) (to_tensor_dataset tokenize stops L W v)"
proof -
  from assms(3) obtain rows where v: "v = DataFrame rows" by (cases v) simp_all
  have "list_all (list_all (\<lambda>i. 0 \<le> i \<and> i < int (length W)))
          (example_indices tokenize stops L W ex)" for ex
    by (simp add: example_indices_def question_indices_in_range [OF assms(1,2)])
  then show ?thesis by (simp add: v list_all_iff)
qed

text \<open>
  C8. After a successful \<^verbatim>\<open>setup_datasets\<close>, every value of the dictionary is a
  \<^verbatim>\<open>TensorDataset\<close> whose indices are at least 0 and less than the number of keys of the
  returned word index; an embedding matrix built from that word index has one row more
  than the word index has keys, so every stored index is the index of a row.
\<close>

theorem indices_are_valid_rows:
  assumes "setup_datasets tokenize stops st d es L = Inr (st', d', texts, W)"
    and "distinct (map fst (st d))"
    and "setup_embedding_matrix rnd wv W esize = Inr E"
  shows "length E = length W + 1
     \<and> list_all (\<lambda>(name, v). indices_below (int (length W)) v) (st' d')
     \<and> list_all (\<lambda>(name, v). indices_below (int (length E)) v) (st' d')"
proof -
  note r = setup_datasets_Inr [OF assms(1,2)]
  note s = word2index_shape [OF r(2)]
  have e: "length E = length W + 1"
    using assms(3) by (rule setup_embedding_matrix_length)
  have "indices_below (int (length W)) (to_tensor_dataset tokenize stops L W v)"
    if "(name, v) \<in> set (st d)" for name v
  proof -
    from that r(3) have "is_data_frame v" by (auto simp: list_all_iff)
    with s(1,4) show ?thesis by (rule to_tensor_dataset_in_range)
  qed
  with r(1,5) have b: "list_all (\<lambda>(name, v). indices_below (int (length W)) v) (st' d')"
    by (auto simp: list_all_iff)
  have "indices_below (int (length E)) v" if "indices_below (int (length W)) v" for v :: "'a dataset"
  proof (cases v)
    case (DataFrame rows)
    with that show ?thesis by simp
  next
    case (TensorDataset xs ys)
    with that e show ?thesis by (fastforce simp: list_all_iff)
  qed
  with b have "list_all (\<lambda>(name, v). indices_below (int (length E)) v) (st' d')"
    by (auto simp: list_all_iff)
  with e b show ?thesis by blast
qed

theorem indices_are_valid_rows_witness:
  "\<exists>st' texts E. setup_datasets example_tokenize [''is''] example_store 0 300 3 =
       Inr (st', 0, texts, example_word2index)
     \<and> setup_embedding_matrix example_draw None example_word2index 2 = Inr E
     \<and> length E = 6
     \<and> list_all (\<lambda>(name, v). indices_below 5 v) (st' 0)"
proof -
  have l: "(0::int) \<le> 3" by simp
  from setup_datasets_total [where st = example_store and d = 0
      and tokenize = example_tokenize and stops = "[''is'']" and es = 300,
      OF l example_store_wf(2)]
  obtain st' texts W where
    r: "setup_datasets example_tokenize [''is''] example_store 0 300 3 = Inr (st', 0, texts, W)"
    by blast
  from setup_datasets_word2index [OF r] have W: "W = example_word2index"
    by (simp only: example_all_tokens example_grow)
  obtain E where e: "setup_embedding_matrix example_draw None W 2 = Inr E"
    by (simp add: setup_embedding_matrix_def)
  from indices_are_valid_rows [OF r example_store_wf(1) e] have
    "length E = length W + 1"
    "list_all (\<lambda>(name, v). indices_below (int (length W)) v) (st' 0)"
    by blast+
  with r e have
    "setup_datasets example_tokenize [''is''] example_store 0 300 3 =
       Inr (st', 0, texts, example_word2index)
     \<and> setup_embedding_matrix example_draw None example_word2index 2 = Inr E
     \<and> length E = 6
     \<and> list_all (\<lambda>(name, v). indices_below 5 v) (st' 0)"
    by (simp add: W example_word2index_def)
  then show ?thesis by (intro exI)
qed











section \<open>\<^verbatim>\<open>make_block\<close>\<close>

text \<open>
  The loop never stores a tensor under a name other than its saved name: an entry of the
  dictionary it returns was in the block's dictionary before, or is an entry of the saved
  state under the same name.
\<close>

lemma make_block_loop_same_names:
  "map_of (make_block_loop block_prefix model_dict block_dict) k = Some v \<Longrightarrow>
   map_of block_dict k = Some v \<or> (k, v) \<in> set model_dict"
proof (induction model_dict arbitrary: block_dict)
  case Nil
  then show ?case by simp
next
  case (Cons item items)
  obtain name weights where item: "item = (name, weights)" by (cases item)
  show ?case
  proof (cases "str_in block_prefix name \<and>
      map_of block_dict (str_replace name block_prefix []) \<noteq> None")
    case True
    with Cons.prems item have
      "map_of (make_block_loop block_prefix items (AList.update name weights block_dict)) k =
         Some v"
      by (simp add: Let_def)
    from Cons.IH [OF this] show ?thesis
      by (auto simp: item update_conv' split: if_splits)
  next
    case False
    with Cons.prems item have "map_of (make_block_loop block_prefix items block_dict) k = Some v"
      by (auto simp: Let_def split: if_splits)
    from Cons.IH [OF this] show ?thesis by auto
  qed
qed

text \<open>
  C2, at a saved state whose names carry the prefix of the block. The loop stores each
  matching tensor under its saved name, prefix included, so the dictionary it builds still
  has the fresh tensors under the block's own names and has the saved ones under names the
  block does not have; \<^verbatim>\<open>load_state_dict\<close> then raises, and no block is returned.
\<close>

theorem make_block_keeps_prefixed_names:
  "make_block_loop ''layers.0.blocks.0.'' example_model_dict (example_state_dict blk) =
     [(''conv.weight'', 0), (''conv.bias'', 0),
      (''layers.0.blocks.0.conv.weight'', 7), (''layers.0.blocks.0.conv.bias'', 8)]
   \<and> make_block example_state_dict example_model_dict ''layers.0.blocks.0.'' 40
        (example_block ''bcnn'') = Inl RuntimeError"
proof -
  have l: "make_block_loop ''layers.0.blocks.0.'' example_model_dict (example_state_dict b) =
     [(''conv.weight'', 0), (''conv.bias'', 0),
      (''layers.0.blocks.0.conv.weight'', 7), (''layers.0.blocks.0.conv.bias'', 8)]" for b
    by (simp add: example_model_dict_def example_state_dict_def str_replace_def Let_def)
  have "load_state_dict (example_state_dict b)
          [(''conv.weight'', 0), (''conv.bias'', 0),
           (''layers.0.blocks.0.conv.weight'', 7), (''layers.0.blocks.0.conv.bias'', 8)] =
        Inl RuntimeError" for b
    by (simp add: load_state_dict_def example_state_dict_def Let_def)
  with l show ?thesis
    by (simp add: make_block_def example_setup_block Let_def)
qed

end
